theory Spec2Isabelle
  imports Complex_Main
begin

section \<open>The portfolio page: data\<close>

text \<open>
  The embedding follows \<^verbatim>\<open>src/site/app/page.tsx\<close> and the two build configurations
  \<^verbatim>\<open>src/site/next.config.ts\<close> and \<^verbatim>\<open>src/site/next.config.mjs\<close>.

  JavaScript strings are modelled as \<^typ>\<open>string\<close>; a character outside ASCII is written
  as its UTF-8 bytes. JavaScript numbers (pixel offsets, scroll positions) are modelled as
  \<^typ>\<open>real\<close>: the handler only adds and compares them.
\<close>

subsection \<open>Section identifiers\<close>

type_synonym SectionId = string

definition SECTION_IDS :: "SectionId list" where
  "SECTION_IDS =
     [''about'', ''projects'', ''certificates'', ''skills'', ''experience'', ''education'',
      ''contact'']"

subsection \<open>Toasts and the form service's replies\<close>

definition FORMSPREE_ENDPOINT :: string where
  "FORMSPREE_ENDPOINT = ''https://formspree.io/f/xyzdbayk''"

datatype toast_kind = success | error

record Toast =
  kind :: toast_kind
  toast_text :: string

record FormspreeError =
  message :: "string option"
  field :: "string option"
  code :: "string option"

record FormspreeResponse =
  errors :: "FormspreeError list option"

text \<open>A promise that has settled: \<open>Fulfilled v\<close> or \<open>Rejected\<close>.\<close>

datatype 'a settled = Fulfilled 'a | Rejected

text \<open>
  The \<^verbatim>\<open>Response\<close> of \<^verbatim>\<open>fetch\<close>: its status and what \<^verbatim>\<open>res.json()\<close> settles
  to. \<^verbatim>\<open>res.ok\<close> is the Fetch API's flag: the status is in the range 200 to 299.
\<close>

record Response =
  status :: nat
  json :: "FormspreeResponse settled"

definition ok :: "Response \<Rightarrow> bool" where
  "ok res = (200 \<le> status res \<and> status res \<le> 299)"

subsection \<open>The contact form\<close>

text \<open>
  The editable controls of the form, in document order: the honeypot \<^verbatim>\<open>_gotcha\<close>, then
  \<^verbatim>\<open>name\<close>, \<^verbatim>\<open>email\<close> and \<^verbatim>\<open>message\<close>. None has a default value. The hidden
  \<^verbatim>\<open>_subject\<close> input carries a constant.
\<close>

record ContactForm =
  input_gotcha :: string
  input_name :: string
  input_email :: string
  input_message :: string

type_synonym FormData = "(string \<times> string) list"

definition new_FormData :: "ContactForm \<Rightarrow> FormData" where
  "new_FormData f =
     [(''_gotcha'', input_gotcha f),
      (''_subject'', ''New message from portfolio site''),
      (''name'', input_name f),
      (''email'', input_email f),
      (''message'', input_message f)]"

definition form_reset :: "ContactForm \<Rightarrow> ContactForm" where
  "form_reset f = \<lparr>input_gotcha = [], input_name = [], input_email = [], input_message = []\<rparr>"

record Request =
  url :: string
  http_method :: string
  body :: FormData
  headers :: "(string \<times> string) list"

subsection \<open>The window, as the scroll handler reads it\<close>

text \<open>
  \<open>headerHeight\<close> is the bounding height of the \<^verbatim>\<open>header\<close> element, \<open>None\<close> when
  \<^verbatim>\<open>querySelector\<close> finds none; \<open>rect_top w sid\<close> is the bounding top of the element with
  that id, \<open>None\<close> when \<^verbatim>\<open>getElementById\<close> finds none.
\<close>

record Window =
  scrollY :: real
  innerHeight :: real
  scrollHeight :: real
  headerHeight :: "real option"
  rect_top :: "SectionId \<rightharpoonup> real"

subsection \<open>The state of the page component\<close>

text \<open>
  The handlers are sequences of calls of state setters and browser functions. An
  \<open>effect\<close> is one such call; a handler is the list of its calls in source order.
  \<open>SetTimeout d cb\<close> registers the callback \<open>cb\<close> with delay \<open>d\<close> milliseconds.
\<close>

datatype effect =
    PreventDefault
  | SetSending bool
  | Fetch Request
  | FormReset
  | SetToast "Toast option"
  | SetTimeout nat "effect list"

text \<open>
  \<open>active\<close>, \<open>sending\<close> and \<open>toast\<close> are the component's \<^verbatim>\<open>useState\<close> cells and
  \<open>offsetsRef\<close> its ref. \<open>form\<close> is the DOM form, \<open>pending\<close> the requests issued and not
  yet settled, \<open>timers\<close> the registered timeouts, oldest first.

  \<^verbatim>\<open>setSending\<close> writes the cell \<open>sending\<close>. The handler does not read the cell: it
  closes over the constant \<^verbatim>\<open>sending\<close> of the render that created it, which is
  \<open>closure_sending\<close>, and only the next render brings that constant up to the cell.
\<close>

record Page =
  active :: SectionId
  offsetsRef :: "SectionId \<rightharpoonup> real"
  sending :: bool
  closure_sending :: bool
  toast :: "Toast option"
  form :: ContactForm
  pending :: "Request list"
  timers :: "(nat \<times> effect list) list"

definition init :: Page where
  "init =
     \<lparr>active = ''about'', offsetsRef = Map.empty, sending = False,
      closure_sending = False, toast = None,
      form = \<lparr>input_gotcha = [], input_name = [], input_email = [], input_message = []\<rparr>,
      pending = [], timers = []\<rparr>"

section \<open>The active-section tracker\<close>

text \<open>\<^verbatim>\<open>computeOffsets\<close>: one entry per section whose element exists.\<close>

definition computeOffsets :: "Window \<Rightarrow> (SectionId \<rightharpoonup> real)" where
  "computeOffsets w =
     fold (\<lambda>sid m. case rect_top w sid of None \<Rightarrow> m | Some t \<Rightarrow> m(sid \<mapsto> t + scrollY w))
       SECTION_IDS Map.empty"

definition headerH :: "Window \<Rightarrow> real" where
  "headerH w = (case headerHeight w of None \<Rightarrow> 0 | Some h \<Rightarrow> h)"

definition scroll_y :: "Window \<Rightarrow> real" where
  "scroll_y w = scrollY w + headerH w + 10"

definition atBottom :: "Window \<Rightarrow> bool" where
  "atBottom w = (of_int \<lceil>scrollY w + innerHeight w\<rceil> \<ge> scrollHeight w - 2)"

text \<open>
  The \<^verbatim>\<open>for ... of SECTION_IDS\<close> loop with its \<^verbatim>\<open>else break\<close>: \<open>current\<close> moves on
  while the section has a recorded offset that \<open>y\<close> has reached, and the loop stops at the
  first section that has none or lies below \<open>y\<close>.
\<close>

fun scan :: "(SectionId \<rightharpoonup> real) \<Rightarrow> real \<Rightarrow> SectionId \<Rightarrow> SectionId list \<Rightarrow> SectionId" where
  "scan offs y current [] = current"
| "scan offs y current (sid # ids) =
     (case offs sid of
        Some off \<Rightarrow> if y \<ge> off then scan offs y sid ids else current
      | None \<Rightarrow> current)"

definition onScroll :: "Window \<Rightarrow> Page \<Rightarrow> Page" where
  "onScroll w st =
     (if atBottom w then st\<lparr>active := ''contact''\<rparr>
      else st\<lparr>active := scan (offsetsRef st) (scroll_y w) ''about'' SECTION_IDS\<rparr>)"

text \<open>
  The loop's test \<^verbatim>\<open>typeof off === "number" && y >= off\<close>: the section has a recorded
  offset and \<open>y\<close> has reached it.
\<close>

definition reached :: "(SectionId \<rightharpoonup> real) \<Rightarrow> real \<Rightarrow> SectionId \<Rightarrow> bool" where
  "reached offs y sid = (case offs sid of Some off \<Rightarrow> y \<ge> off | None \<Rightarrow> False)"

text \<open>
  The specification's reading of the tracker, to compare with \<open>scan\<close>: the last section,
  in the order of the list, whose recorded offset is at most \<open>y\<close>, if there is one.
\<close>

definition last_reached :: "(SectionId \<rightharpoonup> real) \<Rightarrow> real \<Rightarrow> SectionId list \<Rightarrow> SectionId option" where
  "last_reached offs y ids =
     (let rs = filter (reached offs y) ids in if rs = [] then None else Some (last rs))"

text \<open>
  Every section of the list has a recorded offset and the offsets do not decrease along
  the list, as for sections laid out one below the other in declared order.
\<close>

definition offsets_ordered :: "(SectionId \<rightharpoonup> real) \<Rightarrow> SectionId list \<Rightarrow> bool" where
  "offsets_ordered offs ids = (case those (map offs ids) of None \<Rightarrow> False | Some os \<Rightarrow> sorted os)"


section \<open>The contact form's submit handler\<close>

text \<open>
  \<^verbatim>\<open>filter(Boolean)\<close> on the mapped messages: \<^verbatim>\<open>undefined\<close> and the empty string are
  falsy. \<^verbatim>\<open>join\<close> writes an \<^verbatim>\<open>undefined\<close> element as the empty string.
\<close>

definition Boolean :: "string option \<Rightarrow> bool" where
  "Boolean m = (case m of None \<Rightarrow> False | Some s \<Rightarrow> s \<noteq> [])"

definition to_string :: "string option \<Rightarrow> string" where
  "to_string m = (case m of None \<Rightarrow> [] | Some s \<Rightarrow> s)"

fun join :: "string \<Rightarrow> string list \<Rightarrow> string" where
  "join sep [] = []"
| "join sep [x] = x"
| "join sep (x # y # ys) = x @ sep @ join sep (y # ys)"

text \<open>
  \<^verbatim>\<open>j.errors?.map((x) => x.message).filter(Boolean).join(", ") ?? "Could not send ..."\<close>:
  the optional chain is \<open>None\<close> exactly when \<open>errors\<close> is absent, and only then does
  \<^verbatim>\<open>??\<close> take its right-hand side.
\<close>

definition fallback_msg :: string where
  "fallback_msg = ''Could not send message. Please try again.''"

definition error_msg :: "FormspreeResponse \<Rightarrow> string" where
  "error_msg j =
     (case map_option (\<lambda>es. join '', '' (map to_string (filter Boolean (map message es))))
             (errors j) of
        None \<Rightarrow> fallback_msg
      | Some msg \<Rightarrow> msg)"

text \<open>
  The specification's reading of the error notice, to compare with \<open>error_msg\<close>: the
  concatenation of the errors' message fields.
\<close>

definition concat_messages :: "FormspreeError list \<Rightarrow> string" where
  "concat_messages es = concat (map (\<lambda>x. to_string (message x)) es)"

text \<open>\<^verbatim>\<open>await res.json().catch(() => ({}))\<close>\<close>

definition json_or_empty :: "Response \<Rightarrow> FormspreeResponse" where
  "json_or_empty res = (case json res of Fulfilled j \<Rightarrow> j | Rejected \<Rightarrow> \<lparr>errors = None\<rparr>)"

definition success_toast :: Toast where
  "success_toast =
     \<lparr>kind = success,
      toast_text = ''Message sent! I'' @ [CHR 0xE2, CHR 0x80, CHR 0x99] @
        ''ll get back to you soon.''\<rparr>"

definition network_error_toast :: Toast where
  "network_error_toast = \<lparr>kind = error, toast_text = ''Network error. Please try again.''\<rparr>"

definition contact_request :: "ContactForm \<Rightarrow> Request" where
  "contact_request f =
     \<lparr>url = FORMSPREE_ENDPOINT, http_method = ''POST'', body = new_FormData f,
      headers = [(''Accept'', ''application/json'')]\<rparr>"

text \<open>
  \<^verbatim>\<open>handleContactSubmit\<close> up to its \<^verbatim>\<open>await fetch(...)\<close>: the guard
  \<^verbatim>\<open>if (sending) return\<close> on the constant the handler closed over, then the flag, then
  the request.
\<close>

definition submit_effects :: "Page \<Rightarrow> effect list" where
  "submit_effects st =
     PreventDefault #
     (if closure_sending st then []
      else [SetSending True, Fetch (contact_request (form st))])"

text \<open>
  \<^verbatim>\<open>handleContactSubmit\<close> from the settled \<^verbatim>\<open>fetch\<close> on: the \<^verbatim>\<open>try\<close> body, the
  \<^verbatim>\<open>catch\<close> for a rejected \<^verbatim>\<open>fetch\<close>, and the \<^verbatim>\<open>finally\<close> block. The response
  carries what \<^verbatim>\<open>res.json()\<close> settles to, so the second \<^verbatim>\<open>await\<close> is part of the same
  step.
\<close>

definition settle_effects :: "Response settled \<Rightarrow> effect list" where
  "settle_effects r =
     (case r of
        Fulfilled res \<Rightarrow>
          if ok res then [FormReset, SetToast (Some success_toast)]
          else [SetToast (Some \<lparr>kind = error, toast_text = error_msg (json_or_empty res)\<rparr>)]
      | Rejected \<Rightarrow> [SetToast (Some network_error_toast)])
     @ [SetSending False, SetTimeout 4000 [SetToast None]]"

text \<open>What each call does to the page.\<close>

fun apply_effect :: "effect \<Rightarrow> Page \<Rightarrow> Page" where
  "apply_effect PreventDefault st = st"
| "apply_effect (SetSending b) st = st\<lparr>sending := b\<rparr>"
| "apply_effect (Fetch rq) st = st\<lparr>pending := pending st @ [rq]\<rparr>"
| "apply_effect FormReset st = st\<lparr>form := form_reset (form st)\<rparr>"
| "apply_effect (SetToast t) st = st\<lparr>toast := t\<rparr>"
| "apply_effect (SetTimeout d cb) st = st\<lparr>timers := timers st @ [(d, cb)]\<rparr>"

definition run :: "effect list \<Rightarrow> Page \<Rightarrow> Page" where
  "run effs st = fold apply_effect effs st"

definition handleContactSubmit :: "Page \<Rightarrow> Page" where
  "handleContactSubmit st = run (submit_effects st) st"

definition handleContactSubmit_settled :: "Response settled \<Rightarrow> Page \<Rightarrow> Page" where
  "handleContactSubmit_settled r st = run (settle_effects r) (st\<lparr>pending := tl (pending st)\<rparr>)"

text \<open>
  What a list of calls does to the outside: the requests it issues, the notices it shows
  and the timeouts it registers, in order.
\<close>

fun issued :: "effect \<Rightarrow> Request list" where
  "issued (Fetch rq) = [rq]"
| "issued _ = []"

fun shown :: "effect \<Rightarrow> Toast list" where
  "shown (SetToast (Some t)) = [t]"
| "shown _ = []"

fun registered :: "effect \<Rightarrow> (nat \<times> effect list) list" where
  "registered (SetTimeout d cb) = [(d, cb)]"
| "registered _ = []"

definition requests_of :: "effect list \<Rightarrow> Request list" where
  "requests_of effs = concat (map issued effs)"

definition notices_of :: "effect list \<Rightarrow> Toast list" where
  "notices_of effs = concat (map shown effs)"

definition timeouts_of :: "effect list \<Rightarrow> (nat \<times> effect list) list" where
  "timeouts_of effs = concat (map registered effs)"

section \<open>The page as an event-driven machine\<close>

text \<open>
  The browser delivers one event at a time. \<open>Resize\<close> stands for both \<^verbatim>\<open>resize\<close> and
  \<^verbatim>\<open>load\<close>, which run \<^verbatim>\<open>computeOffsets\<close>; \<open>Input\<close> is the user editing the form;
  \<open>Settle\<close> is enabled when a request is pending and \<open>Timeout\<close> when a timer is registered
  (all timers have the same delay, so the oldest fires first). \<open>Render\<close> is React
  rendering the component again: the handlers it creates close over the cells' current
  values.
\<close>

datatype event =
    Scroll Window
  | Resize Window
  | Input ContactForm
  | Submit
  | Settle "Response settled"
  | Timeout
  | Render

fun step :: "event \<Rightarrow> Page \<Rightarrow> Page option" where
  "step (Scroll w) st = Some (onScroll w st)"
| "step (Resize w) st = Some (st\<lparr>offsetsRef := computeOffsets w\<rparr>)"
| "step (Input f) st = Some (st\<lparr>form := f\<rparr>)"
| "step Submit st = Some (handleContactSubmit st)"
| "step (Settle r) st =
     (if pending st = [] then None else Some (handleContactSubmit_settled r st))"
| "step Timeout st =
     (case timers st of [] \<Rightarrow> None | (d, cb) # ts \<Rightarrow> Some (run cb (st\<lparr>timers := ts\<rparr>)))"
| "step Render st = Some (st\<lparr>closure_sending := sending st\<rparr>)"

text \<open>A sequence of events, from a state; \<open>None\<close> when one of them is not enabled.\<close>

fun run_events :: "event list \<Rightarrow> Page \<Rightarrow> Page option" where
  "run_events [] st = Some st"
| "run_events (e # es) st =
     (case step e st of None \<Rightarrow> None | Some st' \<Rightarrow> run_events es st')"

inductive reachable :: "Page \<Rightarrow> bool" where
  reachable_init: "reachable init"
| reachable_step: "reachable st \<Longrightarrow> step e st = Some st' \<Longrightarrow> reachable st'"

text \<open>
  Every registered timer is the handler's \<^verbatim>\<open>setTimeout(() => setToast(null), 4000)\<close>.
\<close>

definition timers_inv :: "Page \<Rightarrow> bool" where
  "timers_inv st = list_all (\<lambda>t. t = (4000, [SetToast None])) (timers st)"

text \<open>
  The state of the in-flight guard once the component has rendered: the handler's
  constant agrees with the cell, and a request is pending exactly while the flag is set,
  never more than one.
\<close>

definition guard_inv :: "Page \<Rightarrow> bool" where
  "guard_inv st =
     (closure_sending st = sending st \<and>
      length (pending st) = (if sending st then 1 else 0) \<and>
      timers_inv st)"

text \<open>
  The outcomes of a submission, by the branch the handler takes: the response is ok; it
  is not ok and its body has an \<open>errors\<close> array; it is not ok and its body has none or
  cannot be parsed; the fetch was rejected.
\<close>

definition is_success :: "Response settled \<Rightarrow> bool" where
  "is_success r = (case r of Fulfilled res \<Rightarrow> ok res | Rejected \<Rightarrow> False)"

definition is_structured_failure :: "Response settled \<Rightarrow> bool" where
  "is_structured_failure r =
     (case r of
        Fulfilled res \<Rightarrow> \<not> ok res \<and> errors (json_or_empty res) \<noteq> None
      | Rejected \<Rightarrow> False)"

definition is_unstructured_failure :: "Response settled \<Rightarrow> bool" where
  "is_unstructured_failure r =
     (case r of
        Fulfilled res \<Rightarrow> \<not> ok res \<and> errors (json_or_empty res) = None
      | Rejected \<Rightarrow> False)"

definition is_transport_failure :: "Response settled \<Rightarrow> bool" where
  "is_transport_failure r = (case r of Fulfilled res \<Rightarrow> False | Rejected \<Rightarrow> True)"

section \<open>The tabbed project list\<close>

datatype tab = research | applied

record Project =
  name :: string
  desc :: string
  link :: string

definition middot :: string where "middot = [CHR 0xC2, CHR 0xB7]"
definition rarrow :: string where "rarrow = [CHR 0xE2, CHR 0x86, CHR 0x92]"
definition rsquo :: string where "rsquo = [CHR 0xE2, CHR 0x80, CHR 0x99]"
definition mdash :: string where "mdash = [CHR 0xE2, CHR 0x80, CHR 0x94]"

fun PROJECTS :: "tab \<Rightarrow> Project list" where
  "PROJECTS research =
     [\<lparr>name = ''AI-FAPS: Multi-Modal '' @ middot @ '' Multi-View '' @ middot @
          '' Multi-Task Pipeline'',
       desc = ''Deep learning pipeline for quality monitoring in industrial manufacturing.'',
       link = ''https://github.com/uddipan77/AI-FAPS-Multi-Modal-View-Task-Pipeline''\<rparr>,
      \<lparr>name = ''Self/Semi-Supervised Image Classification (Industrial Inspection)'',
       desc = ''Comparative assessment of self-, semi-, and combined learning approaches.'',
       link = ''https://github.com/uddipan77/ai-faps-self-semi-combined-dl-pipeline-industrial-inspection''\<rparr>]"
| "PROJECTS applied =
     [\<lparr>name = ''OCR '' @ rarrow @ '' Machine Translation for Inventory Documents'',
       desc = ''Reorders OCR text and translates to Chinese; evaluates with BLEU.'',
       link = ''https://github.com/uddipan77/OCR-to-Machine-Translation''\<rparr>,
      \<lparr>name = ''Generative AI Cold-Email Generator'',
       desc = ''Llama 3.1, LangChain, ChromaDB, Streamlit, Groq Cloud.'',
       link = ''https://github.com/uddipan77/generate_email_with_llm''\<rparr>,
      \<lparr>name = ''Local LLM-based RAG System for Your Personal Documents'',
       desc = ''Private, fully local RAG for Germany'' @ rsquo @
          ''s paperwork pain: convert docs to PDFs, OCR text, store embeddings in OpenSearch, and query with Ollama''
          @ mdash @ ''secure and offline.'',
       link = ''https://github.com/uddipan77/local_rag_talk_with_your_docs/tree/main''\<rparr>,
      \<lparr>name = ''Fullstack Customer Churn Prediction App'',
       desc = ''FastAPI + React; batch & single predictions; multiple models (KNN, SVM, RF, LR, DT, AdaBoost).'',
       link = ''https://github.com/uddipan77/fullstack_customer_churn''\<rparr>]"

text \<open>
  \<^verbatim>\<open>ProjectsTabbed\<close>: the state is the selected key, \<^verbatim>\<open>useState("research")\<close>; a click
  on the button of key \<open>k\<close> calls \<^verbatim>\<open>setTab(k)\<close>; the grid renders \<^verbatim>\<open>PROJECTS[tab]\<close>.
\<close>

definition tabs :: "(tab \<times> string) list" where
  "tabs = [(research, ''Research Projects''), (applied, ''Applied & Industry Projects'')]"

definition init_tab :: tab where
  "init_tab = research"

definition setTab :: "tab \<Rightarrow> tab \<Rightarrow> tab" where
  "setTab k t = k"

definition displayed :: "tab \<Rightarrow> Project list" where
  "displayed t = PROJECTS t"

section \<open>The deployment base path\<close>

text \<open>
  \<open>NODE_ENV\<close> is the value of \<^verbatim>\<open>process.env.NODE_ENV\<close>, \<open>None\<close> when it is not set.
\<close>

type_synonym NODE_ENV = "string option"

definition BASE :: "NODE_ENV \<Rightarrow> string" where
  "BASE env = (if env = Some ''production'' then ''/portfolio_Uddipan'' else [])"

record NextConfig =
  output_mode :: string
  basePath :: string
  assetPrefix :: string
  images_unoptimized :: bool

text \<open>\<^verbatim>\<open>next.config.mjs\<close>\<close>

definition isProd :: "NODE_ENV \<Rightarrow> bool" where
  "isProd env = (env = Some ''production'')"

definition repo :: string where
  "repo = ''portfolio_Uddipan''"

definition next_config_mjs :: "NODE_ENV \<Rightarrow> NextConfig" where
  "next_config_mjs env =
     \<lparr>output_mode = ''export'',
      basePath = (if isProd env then ''/'' @ repo else []),
      assetPrefix = (if isProd env then ''/'' @ repo @ ''/'' else []),
      images_unoptimized = True\<rparr>"

text \<open>
  \<^verbatim>\<open>next.config.ts\<close> stands beside \<^verbatim>\<open>next.config.mjs\<close> in \<^verbatim>\<open>src/site\<close>. It does not
  read the environment. Next looks for its configuration under the names
  \<^verbatim>\<open>next.config.js\<close>, \<^verbatim>\<open>next.config.mjs\<close>, \<^verbatim>\<open>next.config.ts\<close> in this order, so the
  build loads \<^verbatim>\<open>next.config.mjs\<close>.
\<close>

definition nextConfig :: "NODE_ENV \<Rightarrow> NextConfig" where
  "nextConfig env =
     \<lparr>output_mode = ''export'',
      basePath = ''/portfolio_Uddipan'',
      assetPrefix = ''/portfolio_Uddipan/'',
      images_unoptimized = True\<rparr>"

text \<open>The in-page asset links: \<^verbatim>\<open>`${BASE}/assets/files/ResumeUddipan.pdf`\<close> and the like.\<close>

definition asset_href :: "NODE_ENV \<Rightarrow> string \<Rightarrow> string" where
  "asset_href env path = BASE env @ path"

section \<open>A concrete layout\<close>

text \<open>
  A page 5005 pixels high in a viewport of 700, with a header of 64 and the seven sections
  one below the other; \<open>window_at sy\<close> is the window scrolled to \<open>sy\<close>.
\<close>

definition layout_offsets :: "SectionId \<rightharpoonup> real" where
  "layout_offsets =
     [''about'' \<mapsto> 600, ''projects'' \<mapsto> 1400, ''certificates'' \<mapsto> 2100, ''skills'' \<mapsto> 2900,
      ''experience'' \<mapsto> 3600, ''education'' \<mapsto> 4300, ''contact'' \<mapsto> 4900]"

definition window_at :: "real \<Rightarrow> Window" where
  "window_at sy =
     \<lparr>scrollY = sy, innerHeight = 700, scrollHeight = 5005, headerHeight = Some 64,
      rect_top = (\<lambda>sid. map_option (\<lambda>t. t - sy) (layout_offsets sid))\<rparr>"

section \<open>The active-section tracker: proofs\<close>

lemma scan_takeWhile:
  "scan offs y current ids =
     (let pre = takeWhile (reached offs y) ids in if pre = [] then current else last pre)"
proof (induction ids arbitrary: current)
  case Nil
  show ?case by simp
next
  case (Cons sid ids)
  show ?case
  proof (cases "reached offs y sid")
    case True
    then obtain off where o: "offs sid = Some off" "off \<le> y"
      by (auto simp: reached_def split: option.splits)
    show ?thesis
      using True o Cons.IH [of sid] by (simp add: Let_def)
  next
    case False
    then show ?thesis
      by (auto simp: reached_def split: option.splits)
  qed
qed

lemma those_Cons_Some:
  "those (x # xs) = Some ys \<longleftrightarrow> (\<exists>y zs. x = Some y \<and> those xs = Some zs \<and> ys = y # zs)"
  by (cases x) (auto split: option.splits)

lemma those_eq_Some:
  "those xs = Some ys \<Longrightarrow> xs = map Some ys"
  by (induction xs arbitrary: ys) (auto split: option.splits)

lemma ordered_filter_takeWhile:
  "offsets_ordered offs ids \<Longrightarrow> filter (reached offs y) ids = takeWhile (reached offs y) ids"
proof (induction ids)
  case Nil
  show ?case by simp
next
  case (Cons sid ids)
  from Cons.prems obtain off os where
    o: "offs sid = Some off" "those (map offs ids) = Some os" "sorted (off # os)"
    by (auto simp: offsets_ordered_def those_Cons_Some split: option.splits)
  then have ord: "offsets_ordered offs ids"
    by (simp add: offsets_ordered_def)
  show ?case
  proof (cases "reached offs y sid")
    case True
    then show ?thesis using Cons.IH [OF ord] by simp
  next
    case False
    then have lt: "y < off" using o by (simp add: reached_def)
    have "\<not> reached offs y t" if "t \<in> set ids" for t
    proof -
      from o(2) have "map offs ids = map Some os" by (rule those_eq_Some)
      with that obtain v where v: "offs t = Some v" "v \<in> set os"
        by (metis (no_types, lifting) image_iff list.set_map)
      with o(3) have "off \<le> v" by simp
      with lt v show ?thesis by (simp add: reached_def)
    qed
    then show ?thesis using False by (simp add: filter_empty_conv)
  qed
qed

lemma ordered_reached_mono:
  assumes "offsets_ordered offs ids" and "j \<le> i" and "i < length ids"
    and "reached offs y (ids ! i)"
  shows "reached offs y (ids ! j)"
proof -
  from assms(1) obtain os where os: "those (map offs ids) = Some os" "sorted os"
    by (auto simp: offsets_ordered_def split: option.splits)
  then have m: "map offs ids = map Some os" by (simp add: those_eq_Some)
  then have len: "length os = length ids" by (metis length_map)
  have nth: "offs (ids ! k) = Some (os ! k)" if "k < length ids" for k
    using that m len by (metis nth_map)
  have "os ! j \<le> os ! i"
    using os(2) assms(2,3) len by (simp add: sorted_nth_mono)
  with assms nth [of i] nth [of j] show ?thesis
    by (simp add: reached_def)
qed

lemma scan_between:
  assumes ord: "offsets_ordered offs ids" and i: "i < length ids"
    and at: "reached offs y (ids ! i)"
    and below: "Suc i < length ids \<Longrightarrow> \<not> reached offs y (ids ! Suc i)"
  shows "scan offs y current ids = ids ! i"
proof -
  have "takeWhile (reached offs y) ids = take (Suc i) ids"
  proof (rule takeWhile_eq_take_P_nth)
    fix k assume "k < Suc i" "k < length ids"
    then show "reached offs y (ids ! k)"
      using ordered_reached_mono [OF ord _ i at, of k] by simp
  next
    assume "Suc i < length ids"
    then show "\<not> reached offs y (ids ! Suc i)" by (rule below)
  qed
  also have "\<dots> = take i ids @ [ids ! i]"
    using i by (simp add: take_Suc_conv_app_nth)
  finally have tw: "takeWhile (reached offs y) ids = take i ids @ [ids ! i]" .
  show ?thesis
    unfolding scan_takeWhile tw by (simp add: Let_def)
qed

lemma scan_mem:
  "current \<in> S \<Longrightarrow> set ids \<subseteq> S \<Longrightarrow> scan offs y current ids \<in> S"
  by (induction ids arbitrary: current) (auto split: option.splits)

lemma apply_effect_active: "active (apply_effect e st) = active st"
  by (cases e) simp_all

lemma run_active: "active (run effs st) = active st"
  unfolding run_def by (induction effs arbitrary: st) (simp_all add: apply_effect_active)

lemma onScroll_active_mem: "active (onScroll w st) \<in> set SECTION_IDS"
proof (cases "atBottom w")
  case True
  then show ?thesis by (simp add: onScroll_def SECTION_IDS_def)
next
  case False
  have "scan (offsetsRef st) (scroll_y w) ''about'' SECTION_IDS \<in> set SECTION_IDS"
    by (rule scan_mem) (simp_all add: SECTION_IDS_def)
  with False show ?thesis by (simp add: onScroll_def)
qed

lemma step_active_mem:
  "active st \<in> set SECTION_IDS \<Longrightarrow> step e st = Some st' \<Longrightarrow> active st' \<in> set SECTION_IDS"
proof (cases e)
  case (Scroll w)
  assume "step e st = Some st'"
  with Scroll show ?thesis using onScroll_active_mem [of w st] by auto
qed (auto simp: handleContactSubmit_def handleContactSubmit_settled_def run_active
      split: if_splits list.splits)

lemma scan_last_reached_case:
  assumes "offsets_ordered offs ids"
  shows "scan offs y current ids =
     (case last_reached offs y ids of None \<Rightarrow> current | Some s \<Rightarrow> s)"
  using assms
  by (simp add: scan_takeWhile last_reached_def ordered_filter_takeWhile Let_def)

lemma computeOffsets_fold:
  "fold (\<lambda>sid m. case rect_top w sid of None \<Rightarrow> m | Some t \<Rightarrow> m(sid \<mapsto> t + scrollY w)) ids m0 x =
     (if x \<in> set ids
      then (case rect_top w x of None \<Rightarrow> m0 x | Some t \<Rightarrow> Some (t + scrollY w))
      else m0 x)"
  by (induction ids arbitrary: m0) (auto split: option.splits)

lemma computeOffsets_apply:
  "sid \<in> set SECTION_IDS \<Longrightarrow>
     computeOffsets w sid = map_option (\<lambda>t. t + scrollY w) (rect_top w sid)"
  by (simp add: computeOffsets_def computeOffsets_fold split: option.splits)

lemma those_map_option:
  "those (map (map_option f) xs) = map_option (map f) (those xs)"
  by (induction xs) (auto split: option.splits simp: option.map_comp comp_def)

lemma computeOffsets_ordered:
  assumes "offsets_ordered (rect_top w) SECTION_IDS"
  shows "offsets_ordered (computeOffsets w) SECTION_IDS"
proof -
  from assms obtain os where os: "those (map (rect_top w) SECTION_IDS) = Some os" "sorted os"
    by (auto simp: offsets_ordered_def split: option.splits)
  have m: "map (computeOffsets w) SECTION_IDS =
      map (map_option (\<lambda>t. t + scrollY w)) (map (rect_top w) SECTION_IDS)"
    by (simp add: computeOffsets_apply)
  have "those (map (computeOffsets w) SECTION_IDS) = Some (map (\<lambda>t. t + scrollY w) os)"
    by (simp only: m those_map_option os(1) option.map)
  moreover have "sorted (map (\<lambda>t. t + scrollY w) os)"
    using os(2) by (simp add: sorted_map sorted_wrt_mono_rel [of os "(\<le>)"])
  ultimately show ?thesis
    by (simp add: offsets_ordered_def)
qed

text \<open>
  Claim C1, as the handler computes it. The offsets are those \<open>computeOffsets\<close> recorded
  for the page, whose seven sections all exist and lie one below the other in declared
  order. Away from the document bottom the handler takes \<open>y\<close> as the scroll offset plus
  the header height (0 without a header) plus 10, and sets the active section to the last
  section, in declared order, whose recorded offset is at most \<open>y\<close>, and to \<open>about\<close>
  when no section's recorded offset is at most \<open>y\<close>. In particular, for \<open>y\<close> at or above
  one section's offset and below the next section's, the active section is that section.
\<close>

theorem onScroll_active_section:
  "\<not> atBottom w \<Longrightarrow> offsetsRef st = computeOffsets w0 \<Longrightarrow>
   offsets_ordered (rect_top w0) SECTION_IDS \<Longrightarrow>
     scroll_y w = scrollY w + (case headerHeight w of None \<Rightarrow> 0 | Some h \<Rightarrow> h) + 10 \<and>
     active (onScroll w st) =
       (case last_reached (offsetsRef st) (scroll_y w) SECTION_IDS of
          None \<Rightarrow> ''about''
        | Some s \<Rightarrow> s) \<and>
     (\<forall>i off. i < length SECTION_IDS \<and>
        offsetsRef st (SECTION_IDS ! i) = Some off \<and> off \<le> scroll_y w \<and>
        (\<forall>off'. Suc i < length SECTION_IDS \<and>
           offsetsRef st (SECTION_IDS ! Suc i) = Some off' \<longrightarrow> scroll_y w < off') \<longrightarrow>
        active (onScroll w st) = SECTION_IDS ! i)"
proof -
  assume nb: "\<not> atBottom w" and rec: "offsetsRef st = computeOffsets w0"
    and lay: "offsets_ordered (rect_top w0) SECTION_IDS"
  let ?offs = "offsetsRef st" and ?y = "scroll_y w"
  have ord: "offsets_ordered ?offs SECTION_IDS"
    unfolding rec using lay by (rule computeOffsets_ordered)
  have a: "active (onScroll w st) = scan ?offs ?y ''about'' SECTION_IDS"
    using nb by (simp add: onScroll_def)
  have p1: "scroll_y w = scrollY w + (case headerHeight w of None \<Rightarrow> 0 | Some h \<Rightarrow> h) + 10"
    by (simp add: scroll_y_def headerH_def)
  have p2: "active (onScroll w st) =
       (case last_reached ?offs ?y SECTION_IDS of None \<Rightarrow> ''about'' | Some s \<Rightarrow> s)"
    unfolding a using ord by (rule scan_last_reached_case)
  have p3: "active (onScroll w st) = SECTION_IDS ! i"
    if i: "i < length SECTION_IDS"
      and off: "?offs (SECTION_IDS ! i) = Some off" "off \<le> ?y"
      and nxt: "\<forall>off'. Suc i < length SECTION_IDS \<and>
              ?offs (SECTION_IDS ! Suc i) = Some off' \<longrightarrow> ?y < off'"
    for i off
    unfolding a
  proof (rule scan_between [OF ord i])
    show "reached ?offs ?y (SECTION_IDS ! i)"
      using off by (simp add: reached_def)
  next
    assume "Suc i < length SECTION_IDS"
    with nxt show "\<not> reached ?offs ?y (SECTION_IDS ! Suc i)"
      by (auto simp: reached_def split: option.splits)
  qed
  show ?thesis
    using p1 p2 p3 by blast
qed

lemma layout_recorded: "computeOffsets (window_at sy) = layout_offsets"
  by (rule ext)
    (simp add: computeOffsets_def SECTION_IDS_def window_at_def layout_offsets_def)

lemma layout_ordered: "offsets_ordered (rect_top (window_at 0)) SECTION_IDS"
  by (simp add: offsets_ordered_def SECTION_IDS_def window_at_def layout_offsets_def)

theorem onScroll_active_section_witness:
  "\<not> atBottom (window_at 1500) \<and>
   offsets_ordered (rect_top (window_at 0)) SECTION_IDS \<and>
   last_reached (computeOffsets (window_at 0)) (scroll_y (window_at 1500)) SECTION_IDS
     = Some ''projects'' \<and>
   active (onScroll (window_at 1500) (init\<lparr>offsetsRef := computeOffsets (window_at 0)\<rparr>))
     = ''projects''"
proof -
  let ?st = "init\<lparr>offsetsRef := computeOffsets (window_at 0)\<rparr>"
  have nb: "\<not> atBottom (window_at 1500)"
    by (simp add: atBottom_def window_at_def)
  have rec: "offsetsRef ?st = computeOffsets (window_at 0)"
    by simp
  have lr: "last_reached (computeOffsets (window_at 0)) (scroll_y (window_at 1500)) SECTION_IDS
      = Some ''projects''"
    unfolding layout_recorded
    by (simp add: last_reached_def reached_def layout_offsets_def SECTION_IDS_def scroll_y_def
        headerH_def window_at_def)
  from onScroll_active_section [OF nb rec layout_ordered, unfolded rec]
  have "active (onScroll (window_at 1500) ?st) =
      (case last_reached (computeOffsets (window_at 0)) (scroll_y (window_at 1500)) SECTION_IDS of
         None \<Rightarrow> ''about'' | Some s \<Rightarrow> s)"
    by blast
  with nb layout_ordered lr show ?thesis by simp
qed

text \<open>
  Claim C1 as stated fails at the top of the page. With the window not scrolled,
  \<open>y = 74\<close> lies above the first section (\<open>about\<close>, recorded at 600): no section has a
  recorded offset at most \<open>y\<close>, and the handler sets the active section to \<open>about\<close>,
  whose recorded offset is not at most \<open>y\<close>.
\<close>

theorem onScroll_top_of_page_counterexample:
  "\<not> atBottom (window_at 0) \<and>
   offsets_ordered (rect_top (window_at 0)) SECTION_IDS \<and>
   scroll_y (window_at 0) = 74 \<and>
   computeOffsets (window_at 0) ''about'' = Some 600 \<and>
   \<not> reached (computeOffsets (window_at 0)) (scroll_y (window_at 0)) ''about'' \<and>
   last_reached (computeOffsets (window_at 0)) (scroll_y (window_at 0)) SECTION_IDS = None \<and>
   map_option active (run_events [Resize (window_at 0), Scroll (window_at 0)] init)
     = Some ''about''"
proof -
  have nb: "\<not> atBottom (window_at 0)"
    by (simp add: atBottom_def window_at_def)
  have y: "scroll_y (window_at 0) = 74"
    by (simp add: scroll_y_def headerH_def window_at_def)
  have ab: "layout_offsets ''about'' = Some 600"
    by (simp add: layout_offsets_def)
  have nr: "\<not> reached layout_offsets 74 ''about''"
    by (simp add: reached_def layout_offsets_def)
  have lr: "last_reached layout_offsets 74 SECTION_IDS = None"
    by (simp add: last_reached_def reached_def layout_offsets_def SECTION_IDS_def)
  have ev: "map_option active (run_events [Resize (window_at 0), Scroll (window_at 0)] init)
      = Some ''about''"
    using nb y by (simp add: onScroll_def layout_recorded layout_offsets_def SECTION_IDS_def)
  show ?thesis
    using nb layout_ordered y ab nr lr ev by (simp add: layout_recorded)
qed

text \<open>
  Claim C2. When \<open>\<lceil>scrollY + innerHeight\<rceil> \<ge> scrollHeight - 2\<close>, the handler sets the active
  section to \<open>contact\<close>, the last declared section, and changes nothing else; the result
  does not depend on the recorded offsets.
\<close>

theorem atBottom_forces_contact:
  "atBottom w \<Longrightarrow>
     onScroll w st = st\<lparr>active := ''contact''\<rparr> \<and>
     active (onScroll w (st\<lparr>offsetsRef := offs\<rparr>)) = ''contact'' \<and>
     last SECTION_IDS = ''contact''"
  by (simp add: onScroll_def SECTION_IDS_def)

theorem atBottom_forces_contact_witness:
  "atBottom (window_at (8605 / 2)) \<and>
   \<not> 8605 / 2 + 700 \<ge> scrollHeight (window_at (8605 / 2)) - 2 \<and>
   scan layout_offsets (scroll_y (window_at (8605 / 2))) ''about'' SECTION_IDS = ''education'' \<and>
   active (onScroll (window_at (8605 / 2)) (init\<lparr>offsetsRef := layout_offsets\<rparr>)) = ''contact''"
proof -
  have b: "atBottom (window_at (8605 / 2))"
    by (simp add: atBottom_def window_at_def)
  have s: "scan layout_offsets (scroll_y (window_at (8605 / 2))) ''about'' SECTION_IDS = ''education''"
    by (simp add: layout_offsets_def SECTION_IDS_def scroll_y_def headerH_def window_at_def)
  from atBottom_forces_contact [OF b, of "init\<lparr>offsetsRef := layout_offsets\<rparr>" layout_offsets]
  have "active (onScroll (window_at (8605 / 2)) (init\<lparr>offsetsRef := layout_offsets\<rparr>)) = ''contact''"
    by simp
  with b s show ?thesis by (simp add: window_at_def)
qed

text \<open>
  Claim C4. In every reachable state of the page the active section is one of the seven
  declared identifiers: the initial state holds \<open>about\<close>, and the scroll handler, the only
  writer, assigns \<open>contact\<close> or a member of \<open>SECTION_IDS\<close>, from any state.
\<close>

theorem active_always_declared:
  "(reachable st \<longrightarrow> active st \<in> set SECTION_IDS) \<and>
   active init \<in> set SECTION_IDS \<and>
   active (onScroll w st') \<in> set SECTION_IDS \<and>
   set SECTION_IDS =
     {''about'', ''projects'', ''certificates'', ''skills'', ''experience'', ''education'',
      ''contact''}"
proof -
  have i: "active init \<in> set SECTION_IDS"
    by (simp add: init_def SECTION_IDS_def)
  have "active st \<in> set SECTION_IDS" if "reachable st"
    using that by (induction rule: reachable.induct) (auto intro: i step_active_mem)
  then show ?thesis
    using i onScroll_active_mem [of w st'] by (auto simp: SECTION_IDS_def)
qed

theorem active_always_declared_witness:
  "reachable (onScroll (window_at 1500) (init\<lparr>offsetsRef := computeOffsets (window_at 1500)\<rparr>)) \<and>
   active (onScroll (window_at 1500) (init\<lparr>offsetsRef := computeOffsets (window_at 1500)\<rparr>))
     \<in> set SECTION_IDS"
proof -
  let ?w = "window_at 1500"
  have "reachable (init\<lparr>offsetsRef := computeOffsets ?w\<rparr>)"
    by (rule reachable_step [OF reachable_init, of "Resize ?w"]) simp
  then have r: "reachable (onScroll ?w (init\<lparr>offsetsRef := computeOffsets ?w\<rparr>))"
    by (rule reachable_step [where e = "Scroll ?w"]) simp
  with active_always_declared [of "onScroll ?w (init\<lparr>offsetsRef := computeOffsets ?w\<rparr>)" ?w init]
  show ?thesis by blast
qed

section \<open>The contact form: proofs\<close>

lemma run_Nil [simp]: "run [] st = st"
  by (simp add: run_def)

lemma run_Cons [simp]: "run (e # effs) st = run effs (apply_effect e st)"
  by (simp add: run_def)

lemma onScroll_frame:
  "sending (onScroll w st) = sending st \<and> closure_sending (onScroll w st) = closure_sending st \<and>
   pending (onScroll w st) = pending st \<and> timers (onScroll w st) = timers st \<and>
   toast (onScroll w st) = toast st \<and> form (onScroll w st) = form st"
  by (simp add: onScroll_def)

lemma settled_fields:
  "sending (handleContactSubmit_settled r st) = False \<and>
   closure_sending (handleContactSubmit_settled r st) = closure_sending st \<and>
   pending (handleContactSubmit_settled r st) = tl (pending st) \<and>
   timers (handleContactSubmit_settled r st) = timers st @ [(4000, [SetToast None])] \<and>
   active (handleContactSubmit_settled r st) = active st"
  by (cases r) (simp_all add: handleContactSubmit_settled_def settle_effects_def)

lemma settled_toast:
  "toast (handleContactSubmit_settled r st) =
     Some (case r of
        Fulfilled res \<Rightarrow>
          if ok res then success_toast
          else \<lparr>kind = error, toast_text = error_msg (json_or_empty res)\<rparr>
      | Rejected \<Rightarrow> network_error_toast)"
  by (cases r) (simp_all add: handleContactSubmit_settled_def settle_effects_def)

lemma settled_form:
  "form (handleContactSubmit_settled r st) =
     (case r of
        Fulfilled res \<Rightarrow> if ok res then form_reset (form st) else form st
      | Rejected \<Rightarrow> form st)"
  by (cases r) (simp_all add: handleContactSubmit_settled_def settle_effects_def)

lemma submit_guarded: "closure_sending st \<Longrightarrow> handleContactSubmit st = st"
  by (simp add: handleContactSubmit_def submit_effects_def)

lemma submit_open:
  "\<not> closure_sending st \<Longrightarrow>
     handleContactSubmit st = st\<lparr>sending := True, pending := pending st @ [contact_request (form st)]\<rparr>"
  by (simp add: handleContactSubmit_def submit_effects_def)

lemma timers_inv_step: "timers_inv st \<Longrightarrow> step e st = Some st' \<Longrightarrow> timers_inv st'"
proof (cases e)
  case (Scroll w)
  assume "timers_inv st" "step e st = Some st'"
  with Scroll show ?thesis by (auto simp: timers_inv_def onScroll_frame)
next
  case Submit
  assume "timers_inv st" "step e st = Some st'"
  with Submit show ?thesis
    by (cases "closure_sending st") (auto simp: timers_inv_def submit_guarded submit_open)
next
  case (Settle r)
  assume "timers_inv st" "step e st = Some st'"
  with Settle show ?thesis
    by (auto simp: timers_inv_def settled_fields split: if_splits)
next
  case Timeout
  assume "timers_inv st" "step e st = Some st'"
  with Timeout show ?thesis
    by (auto simp: timers_inv_def split: list.splits)
qed (auto simp: timers_inv_def)

lemma reachable_timers_inv: "reachable st \<Longrightarrow> timers_inv st"
proof (induction rule: reachable.induct)
  case reachable_init
  show ?case by (simp add: timers_inv_def init_def)
next
  case (reachable_step st e st')
  then show ?case by (auto intro: timers_inv_step)
qed

text \<open>
  In a reachable state every timeout that fires runs \<^verbatim>\<open>setToast(null)\<close>: after a
  settled submission the next timeout event clears the notice, whichever submission
  registered it.
\<close>

lemma settled_next_timeout:
  assumes "reachable st"
  shows "step Timeout (handleContactSubmit_settled r st) =
     Some ((handleContactSubmit_settled r st)
       \<lparr>timers := tl (timers (handleContactSubmit_settled r st)), toast := None\<rparr>)"
proof -
  let ?s = "handleContactSubmit_settled r st"
  have t: "timers ?s = timers st @ [(4000, [SetToast None])]"
    by (simp add: settled_fields)
  have inv: "list_all (\<lambda>t. t = (4000, [SetToast None])) (timers st)"
    using reachable_timers_inv [OF assms] by (simp add: timers_inv_def)
  show ?thesis
  proof (cases "timers st")
    case Nil
    with t show ?thesis by simp
  next
    case (Cons x xs)
    with inv have "x = (4000, [SetToast None])" by simp
    with Cons t show ?thesis by simp
  qed
qed

lemma guard_inv_rendered:
  assumes "guard_inv st" and "run_events [e, Render] st = Some st'"
  shows "guard_inv st'"
proof -
  from assms(2) obtain s1 where s1: "step e st = Some s1" and st': "st' = s1\<lparr>closure_sending := sending s1\<rparr>"
    by (auto split: option.splits)
  from assms(1) have ti: "timers_inv st" by (simp add: guard_inv_def)
  then have "timers_inv s1" using s1 by (rule timers_inv_step)
  then have t': "timers_inv st'" by (simp add: st' timers_inv_def)
  have "length (pending s1) = (if sending s1 then 1 else 0)"
  proof (cases e)
    case (Scroll w)
    with assms(1) s1 show ?thesis by (auto simp: guard_inv_def onScroll_frame)
  next
    case Submit
    with assms(1) s1 show ?thesis
      by (cases "closure_sending st") (auto simp: guard_inv_def submit_guarded submit_open)
  next
    case (Settle r)
    with assms(1) s1 show ?thesis
      by (auto simp: guard_inv_def settled_fields length_Suc_conv split: if_splits)
  next
    case Timeout
    with assms(1) s1 show ?thesis
      by (auto simp: guard_inv_def timers_inv_def split: list.splits)
  qed (use assms(1) s1 in \<open>auto simp: guard_inv_def\<close>)
  with t' show ?thesis by (simp add: guard_inv_def st')
qed

text \<open>
  Claim C3, as the handler computes it. Once the component has rendered with the flag set,
  so that the handler's constant \<^verbatim>\<open>sending\<close> is true, a submit leaves the whole page
  state as it is and issues no request. When the constant is false, the handler sets the
  flag and then issues the request, in this order. The continuation after the request
  has settled ends with \<^verbatim>\<open>setSending(false)\<close>, whatever the outcome. A render after the
  flag is set closes the guard; and when a render follows every event, one request is
  pending while the flag is set and none otherwise.
\<close>

theorem in_flight_guard:
  "(closure_sending st \<longrightarrow>
      handleContactSubmit st = st \<and> requests_of (submit_effects st) = []) \<and>
   (\<not> closure_sending st \<longrightarrow>
      submit_effects st = [PreventDefault, SetSending True, Fetch (contact_request (form st))] \<and>
      handleContactSubmit st =
        st\<lparr>sending := True, pending := pending st @ [contact_request (form st)]\<rparr>) \<and>
   (\<exists>effs. settle_effects r = effs @ [SetSending False, SetTimeout 4000 [SetToast None]]) \<and>
   sending (handleContactSubmit_settled r st) = False \<and>
   (sending st \<longrightarrow>
      run_events [Render, Submit] st = Some (st\<lparr>closure_sending := True\<rparr>)) \<and>
   guard_inv init \<and>
   (guard_inv st \<longrightarrow> (\<forall>e st'. run_events [e, Render] st = Some st' \<longrightarrow> guard_inv st'))"
proof -
  have a: "requests_of (submit_effects st) = []" if "closure_sending st"
    using that by (simp add: requests_of_def submit_effects_def)
  have b: "submit_effects st = [PreventDefault, SetSending True, Fetch (contact_request (form st))]"
    if "\<not> closure_sending st"
    using that by (simp add: submit_effects_def)
  have c: "\<exists>effs. settle_effects r = effs @ [SetSending False, SetTimeout 4000 [SetToast None]]"
    by (simp add: settle_effects_def)
  have d: "run_events [Render, Submit] st = Some (st\<lparr>closure_sending := True\<rparr>)" if "sending st"
    using that by (simp add: submit_guarded)
  have e: "guard_inv init"
    by (simp add: guard_inv_def timers_inv_def init_def)
  show ?thesis
    using a b c d e submit_guarded [of st] submit_open [of st] settled_fields [of r st]
      guard_inv_rendered [of st]
    by blast
qed

theorem in_flight_guard_witness:
  "map_option sending (run_events [Input \<lparr>input_gotcha = [], input_name = ''Ada'', input_email = ''ada@example.org'',
       input_message = ''Hello''\<rparr>, Submit, Render] init) = Some True \<and>
   map_option closure_sending (run_events [Input \<lparr>input_gotcha = [], input_name = ''Ada'', input_email = ''ada@example.org'',
       input_message = ''Hello''\<rparr>, Submit, Render] init) = Some True \<and>
   map_option pending (run_events [Input \<lparr>input_gotcha = [], input_name = ''Ada'', input_email = ''ada@example.org'',
       input_message = ''Hello''\<rparr>, Submit, Render] init) = Some [contact_request \<lparr>input_gotcha = [], input_name = ''Ada'', input_email = ''ada@example.org'',
       input_message = ''Hello''\<rparr>] \<and>
   run_events [Input \<lparr>input_gotcha = [], input_name = ''Ada'', input_email = ''ada@example.org'',
       input_message = ''Hello''\<rparr>, Submit, Render, Submit] init =
     run_events [Input \<lparr>input_gotcha = [], input_name = ''Ada'', input_email = ''ada@example.org'',
       input_message = ''Hello''\<rparr>, Submit, Render] init \<and>
   map_option guard_inv (run_events [Input \<lparr>input_gotcha = [], input_name = ''Ada'', input_email = ''ada@example.org'',
       input_message = ''Hello''\<rparr>, Submit, Render] init) = Some True"
proof -
  let ?f = "\<lparr>input_gotcha = [], input_name = ''Ada'', input_email = ''ada@example.org'',
       input_message = ''Hello''\<rparr>"
  let ?s0 = "init\<lparr>form := ?f\<rparr>"
  let ?s1 = "?s0\<lparr>sending := True, pending := [contact_request ?f]\<rparr>"
  let ?s2 = "?s1\<lparr>closure_sending := True\<rparr>"
  have idle: "\<not> closure_sending ?s0" and p0: "pending ?s0 = []" and f0: "form ?s0 = ?f"
    by (simp_all add: init_def)
  from in_flight_guard [of ?s0 Rejected] idle
  have "handleContactSubmit ?s0 =
      ?s0\<lparr>sending := True, pending := pending ?s0 @ [contact_request (form ?s0)]\<rparr>"
    by blast
  then have s1: "handleContactSubmit ?s0 = ?s1"
    by (simp add: p0 f0)
  then have r2: "run_events [Input ?f, Submit, Render] init = Some ?s2"
    by simp
  have "closure_sending ?s2" by simp
  with in_flight_guard [of ?s2 Rejected] have g: "handleContactSubmit ?s2 = ?s2"
    by blast
  have r3: "run_events [Input ?f, Submit, Render, Submit] init = Some ?s2"
    using s1 g by simp
  from in_flight_guard [of init Rejected] have gi: "guard_inv init"
    by blast
  have "run_events [Input ?f, Render] init = Some ?s0"
    by (simp add: init_def)
  with in_flight_guard [of init Rejected] gi have g0: "guard_inv ?s0"
    by blast
  have "run_events [Submit, Render] ?s0 = Some ?s2"
    using s1 by simp
  with in_flight_guard [of ?s0 Rejected] g0 have "guard_inv ?s2"
    by blast
  with r2 r3 show ?thesis by simp
qed

text \<open>
  Claim C3 as stated fails for a submit that arrives before the component has rendered
  again: the cell \<open>sending\<close> is set, the handler still holds the constant \<^verbatim>\<open>false\<close>, and
  the second submit issues a second request.
\<close>

theorem stale_guard_counterexample:
  "map_option sending (run_events [Input \<lparr>input_gotcha = [], input_name = ''Ada'', input_email = ''ada@example.org'',
       input_message = ''Hello''\<rparr>, Submit] init) = Some True \<and>
   map_option pending (run_events [Input \<lparr>input_gotcha = [], input_name = ''Ada'', input_email = ''ada@example.org'',
       input_message = ''Hello''\<rparr>, Submit] init) = Some [contact_request \<lparr>input_gotcha = [], input_name = ''Ada'', input_email = ''ada@example.org'',
       input_message = ''Hello''\<rparr>] \<and>
   map_option sending (run_events [Input \<lparr>input_gotcha = [], input_name = ''Ada'', input_email = ''ada@example.org'',
       input_message = ''Hello''\<rparr>, Submit, Submit] init) = Some True \<and>
   map_option pending (run_events [Input \<lparr>input_gotcha = [], input_name = ''Ada'', input_email = ''ada@example.org'',
       input_message = ''Hello''\<rparr>, Submit, Submit] init) = Some [contact_request \<lparr>input_gotcha = [], input_name = ''Ada'', input_email = ''ada@example.org'',
       input_message = ''Hello''\<rparr>, contact_request \<lparr>input_gotcha = [], input_name = ''Ada'', input_email = ''ada@example.org'',
       input_message = ''Hello''\<rparr>]"
  by (simp add: handleContactSubmit_def submit_effects_def init_def)

lemma to_string_filter_Boolean:
  "map to_string (filter Boolean ms) = filter (\<lambda>m. m \<noteq> []) (map to_string ms)"
  by (induction ms) (auto simp: Boolean_def to_string_def split: option.splits)

lemma error_msg_errors:
  "errors j = Some es \<Longrightarrow>
     error_msg j = join '', '' (filter (\<lambda>m. m \<noteq> []) (map (\<lambda>x. to_string (message x)) es))"
  by (simp add: error_msg_def to_string_filter_Boolean comp_def)

lemma error_msg_absent: "errors j = None \<Longrightarrow> error_msg j = fallback_msg"
  by (simp add: error_msg_def)

lemma join_short: "length xs \<le> 1 \<Longrightarrow> join sep xs = concat xs"
  by (induction sep xs rule: join.induct) simp_all

lemma concat_filter_nonempty: "concat (filter (\<lambda>m. m \<noteq> []) xs) = concat xs"
  by (induction xs) simp_all

lemma settled_remote_failure:
  "\<not> ok res \<Longrightarrow>
     toast (handleContactSubmit_settled (Fulfilled res) st) =
       Some \<lparr>kind = error, toast_text = error_msg (json_or_empty res)\<rparr>"
  by (simp add: settled_toast)

text \<open>
  Claim C5, as the handler computes it. After a response with a status from 200 to 299
  the handler has reset every control of the form to the empty string, the toast is the
  success notice, and one timeout of 4000 milliseconds is registered whose callback
  clears the toast. When no timeout of an earlier submission is still registered, that
  timeout is the next to fire and clears the notice after the fixed delay. In every
  reachable state the next timeout to fire clears the notice.
\<close>

theorem success_clears_form_and_notifies:
  "200 \<le> status res \<Longrightarrow> status res \<le> 299 \<Longrightarrow>
     form (handleContactSubmit_settled (Fulfilled res) st) =
       \<lparr>input_gotcha = [], input_name = [], input_email = [], input_message = []\<rparr> \<and>
     toast (handleContactSubmit_settled (Fulfilled res) st) = Some success_toast \<and>
     kind success_toast = success \<and>
     timers (handleContactSubmit_settled (Fulfilled res) st) =
       timers st @ [(4000, [SetToast None])] \<and>
     toast (run [SetToast None] s) = None \<and>
     (timers st = [] \<longrightarrow>
        step Timeout (handleContactSubmit_settled (Fulfilled res) st) =
          Some ((handleContactSubmit_settled (Fulfilled res) st)\<lparr>timers := [], toast := None\<rparr>)) \<and>
     (reachable st \<longrightarrow>
        step Timeout (handleContactSubmit_settled (Fulfilled res) st) =
          Some ((handleContactSubmit_settled (Fulfilled res) st)
            \<lparr>timers := tl (timers (handleContactSubmit_settled (Fulfilled res) st)),
             toast := None\<rparr>))"
proof -
  assume "200 \<le> status res" "status res \<le> 299"
  then have k: "ok res" by (simp add: ok_def)
  let ?s = "handleContactSubmit_settled (Fulfilled res) st"
  have t: "timers ?s = timers st @ [(4000, [SetToast None])]"
    by (simp add: settled_fields)
  have f: "form ?s = \<lparr>input_gotcha = [], input_name = [], input_email = [], input_message = []\<rparr>"
    using k by (simp add: settled_form form_reset_def)
  have n: "toast ?s = Some success_toast"
    using k by (simp add: settled_toast)
  have c: "step Timeout ?s = Some (?s\<lparr>timers := [], toast := None\<rparr>)" if "timers st = []"
    using that t by simp
  have d: "step Timeout ?s = Some (?s\<lparr>timers := tl (timers ?s), toast := None\<rparr>)"
    if "reachable st"
    using that by (rule settled_next_timeout)
  have e: "toast (run [SetToast None] s) = None" "kind success_toast = success"
    by (simp_all add: success_toast_def)
  show ?thesis
    using t f n c d e by blast
qed

theorem success_clears_form_and_notifies_witness:
  "(200 :: nat) \<le> status \<lparr>status = 200, json = Fulfilled \<lparr>errors = None\<rparr>\<rparr> \<and>
   status \<lparr>status = 200, json = Fulfilled \<lparr>errors = None\<rparr>\<rparr> \<le> 299 \<and>
   map_option form (run_events [Input \<lparr>input_gotcha = [], input_name = ''Ada'', input_email = ''ada@example.org'',
       input_message = ''Hello''\<rparr>, Submit, Render, Settle (Fulfilled \<lparr>status = 200, json = Fulfilled \<lparr>errors = None\<rparr>\<rparr>)] init) =
     Some \<lparr>input_gotcha = [], input_name = [], input_email = [], input_message = []\<rparr> \<and>
   map_option toast (run_events [Input \<lparr>input_gotcha = [], input_name = ''Ada'', input_email = ''ada@example.org'',
       input_message = ''Hello''\<rparr>, Submit, Render, Settle (Fulfilled \<lparr>status = 200, json = Fulfilled \<lparr>errors = None\<rparr>\<rparr>)] init) =
     Some (Some success_toast) \<and>
   map_option toast
     (run_events [Input \<lparr>input_gotcha = [], input_name = ''Ada'', input_email = ''ada@example.org'',
       input_message = ''Hello''\<rparr>, Submit, Render, Settle (Fulfilled \<lparr>status = 200, json = Fulfilled \<lparr>errors = None\<rparr>\<rparr>), Timeout] init) =
     Some None"
proof -
  let ?res = "\<lparr>status = 200, json = Fulfilled \<lparr>errors = None\<rparr>\<rparr>"
  let ?s1 = "init\<lparr>form := \<lparr>input_gotcha = [], input_name = ''Ada'', input_email = ''ada@example.org'',
       input_message = ''Hello''\<rparr>,
    sending := True, pending := [contact_request \<lparr>input_gotcha = [], input_name = ''Ada'', input_email = ''ada@example.org'',
       input_message = ''Hello''\<rparr>],
    closure_sending := True\<rparr>"
  have lo: "200 \<le> status ?res" and hi: "status ?res \<le> 299" by simp_all
  have r1: "run_events [Input \<lparr>input_gotcha = [], input_name = ''Ada'', input_email = ''ada@example.org'',
       input_message = ''Hello''\<rparr>, Submit, Render] init = Some ?s1"
    by (simp add: handleContactSubmit_def submit_effects_def init_def)
  have t: "timers ?s1 = []" and p: "pending ?s1 \<noteq> []"
    by (simp_all add: init_def)
  have reach: "reachable ?s1"
  proof -
    have "reachable (init\<lparr>form := \<lparr>input_gotcha = [], input_name = ''Ada'', input_email = ''ada@example.org'',
       input_message = ''Hello''\<rparr>\<rparr>)"
      by (rule reachable_step [OF reachable_init, of "Input \<lparr>input_gotcha = [], input_name = ''Ada'', input_email = ''ada@example.org'',
       input_message = ''Hello''\<rparr>"]) simp
    then have "reachable (handleContactSubmit (init\<lparr>form := \<lparr>input_gotcha = [], input_name = ''Ada'', input_email = ''ada@example.org'',
       input_message = ''Hello''\<rparr>\<rparr>))"
      by (rule reachable_step [where e = Submit]) simp
    then have "reachable ((handleContactSubmit (init\<lparr>form := \<lparr>input_gotcha = [], input_name = ''Ada'', input_email = ''ada@example.org'',
       input_message = ''Hello''\<rparr>\<rparr>))
        \<lparr>closure_sending := sending (handleContactSubmit (init\<lparr>form := \<lparr>input_gotcha = [], input_name = ''Ada'', input_email = ''ada@example.org'',
       input_message = ''Hello''\<rparr>\<rparr>))\<rparr>)"
      by (rule reachable_step [where e = Render]) simp
    then show ?thesis
      by (simp add: handleContactSubmit_def submit_effects_def init_def)
  qed
  note th = success_clears_form_and_notifies [OF lo hi, of ?s1 init]
  from th have a: "form (handleContactSubmit_settled (Fulfilled ?res) ?s1) =
      \<lparr>input_gotcha = [], input_name = [], input_email = [], input_message = []\<rparr>"
    and b: "toast (handleContactSubmit_settled (Fulfilled ?res) ?s1) = Some success_toast"
    by blast+
  from th reach have c: "step Timeout (handleContactSubmit_settled (Fulfilled ?res) ?s1) =
      Some ((handleContactSubmit_settled (Fulfilled ?res) ?s1)
        \<lparr>timers := tl (timers (handleContactSubmit_settled (Fulfilled ?res) ?s1)), toast := None\<rparr>)"
    by blast
  have e1: "run_events [Input \<lparr>input_gotcha = [], input_name = ''Ada'', input_email = ''ada@example.org'',
       input_message = ''Hello''\<rparr>, Submit, Render, Settle (Fulfilled \<lparr>status = 200, json = Fulfilled \<lparr>errors = None\<rparr>\<rparr>)] init =
      Some (handleContactSubmit_settled (Fulfilled ?res) ?s1)"
    using r1 p by (simp split: option.splits)
  have e2: "run_events [Input \<lparr>input_gotcha = [], input_name = ''Ada'', input_email = ''ada@example.org'',
       input_message = ''Hello''\<rparr>, Submit, Render, Settle (Fulfilled \<lparr>status = 200, json = Fulfilled \<lparr>errors = None\<rparr>\<rparr>), Timeout] init =
      step Timeout (handleContactSubmit_settled (Fulfilled ?res) ?s1)"
    using r1 p by (simp split: option.splits)
  show ?thesis
    unfolding e1 e2 c using a b lo hi by simp
qed

text \<open>
  Claim C5 as stated fails when the timeout of an earlier submission is still registered:
  after a rejected submission (422) and a successful one (200), the first timeout to
  fire is the earlier submission's; it clears the success notice while the notice's own
  timeout of 4000 milliseconds is still registered.
\<close>

theorem success_notice_cleared_early_counterexample:
  "map_option toast
     (run_events [Input \<lparr>input_gotcha = [], input_name = ''Ada'', input_email = ''ada@example.org'',
       input_message = ''Hello''\<rparr>, Submit, Render, Settle (Fulfilled \<lparr>status = 422, json = Fulfilled \<lparr>errors = Some [\<lparr>message = Some ''Invalid email'',
       field = Some ''email'', code = Some ''TYPE_EMAIL''\<rparr>]\<rparr>\<rparr>), Render,
        Submit, Render, Settle (Fulfilled \<lparr>status = 200, json = Fulfilled \<lparr>errors = None\<rparr>\<rparr>), Render] init) = Some (Some success_toast) \<and>
   map_option timers
     (run_events [Input \<lparr>input_gotcha = [], input_name = ''Ada'', input_email = ''ada@example.org'',
       input_message = ''Hello''\<rparr>, Submit, Render, Settle (Fulfilled \<lparr>status = 422, json = Fulfilled \<lparr>errors = Some [\<lparr>message = Some ''Invalid email'',
       field = Some ''email'', code = Some ''TYPE_EMAIL''\<rparr>]\<rparr>\<rparr>), Render,
        Submit, Render, Settle (Fulfilled \<lparr>status = 200, json = Fulfilled \<lparr>errors = None\<rparr>\<rparr>), Render] init) = Some [(4000, [SetToast None]), (4000, [SetToast None])] \<and>
   map_option toast
     (run_events [Input \<lparr>input_gotcha = [], input_name = ''Ada'', input_email = ''ada@example.org'',
       input_message = ''Hello''\<rparr>, Submit, Render, Settle (Fulfilled \<lparr>status = 422, json = Fulfilled \<lparr>errors = Some [\<lparr>message = Some ''Invalid email'',
       field = Some ''email'', code = Some ''TYPE_EMAIL''\<rparr>]\<rparr>\<rparr>), Render,
        Submit, Render, Settle (Fulfilled \<lparr>status = 200, json = Fulfilled \<lparr>errors = None\<rparr>\<rparr>), Render, Timeout] init) = Some None \<and>
   map_option timers
     (run_events [Input \<lparr>input_gotcha = [], input_name = ''Ada'', input_email = ''ada@example.org'',
       input_message = ''Hello''\<rparr>, Submit, Render, Settle (Fulfilled \<lparr>status = 422, json = Fulfilled \<lparr>errors = Some [\<lparr>message = Some ''Invalid email'',
       field = Some ''email'', code = Some ''TYPE_EMAIL''\<rparr>]\<rparr>\<rparr>), Render,
        Submit, Render, Settle (Fulfilled \<lparr>status = 200, json = Fulfilled \<lparr>errors = None\<rparr>\<rparr>), Render, Timeout] init) = Some [(4000, [SetToast None])]"
  by (simp add: handleContactSubmit_def submit_effects_def handleContactSubmit_settled_def settle_effects_def init_def ok_def)

text \<open>
  Claim C6, as the handler computes it. For a response that is not ok and whose JSON body
  has an \<open>errors\<close> array, the error notice is the non-empty message fields (a missing
  message counts as empty) joined with the separator \<^verbatim>\<open>", "\<close>. With at most one
  non-empty message this is the concatenation of the message fields, so \<^verbatim>\<open>errors:
  [{message:"Invalid email"}]\<close> gives exactly \<^verbatim>\<open>Invalid email\<close>.
\<close>

theorem error_notice_joins_messages:
  "\<not> ok res \<Longrightarrow> json res = Fulfilled j \<Longrightarrow> errors j = Some es \<Longrightarrow>
     toast (handleContactSubmit_settled (Fulfilled res) st) =
       Some \<lparr>kind = error,
             toast_text =
               join '', '' (filter (\<lambda>m. m \<noteq> []) (map (\<lambda>x. to_string (message x)) es))\<rparr> \<and>
     (length (filter (\<lambda>m. m \<noteq> []) (map (\<lambda>x. to_string (message x)) es)) \<le> 1 \<longrightarrow>
        toast (handleContactSubmit_settled (Fulfilled res) st) =
          Some \<lparr>kind = error, toast_text = concat_messages es\<rparr>)"
proof -
  assume nok: "\<not> ok res" and j: "json res = Fulfilled j" and es: "errors j = Some es"
  let ?ms = "filter (\<lambda>m. m \<noteq> []) (map (\<lambda>x. to_string (message x)) es)"
  have "json_or_empty res = j"
    using j by (simp add: json_or_empty_def)
  then have m: "error_msg (json_or_empty res) = join '', '' ?ms"
    using es by (simp add: error_msg_errors)
  have "join '', '' ?ms = concat_messages es" if "length ?ms \<le> 1"
    using join_short [OF that, of "'', ''"] concat_filter_nonempty [of "map (\<lambda>x. to_string (message x)) es"]
    by (simp add: concat_messages_def)
  with m settled_remote_failure [OF nok, of st] show ?thesis
    by simp
qed

theorem error_notice_joins_messages_witness:
  "\<not> ok \<lparr>status = 422,
       json = Fulfilled \<lparr>errors = Some [\<lparr>message = Some ''Invalid email'', field = Some ''email'',
         code = Some ''TYPE_EMAIL''\<rparr>]\<rparr>\<rparr> \<and>
   toast (handleContactSubmit_settled
     (Fulfilled \<lparr>status = 422,
       json = Fulfilled \<lparr>errors = Some [\<lparr>message = Some ''Invalid email'', field = Some ''email'',
         code = Some ''TYPE_EMAIL''\<rparr>]\<rparr>\<rparr>) init) =
     Some \<lparr>kind = error, toast_text = ''Invalid email''\<rparr>"
proof -
  let ?e = "\<lparr>message = Some ''Invalid email'', field = Some ''email'', code = Some ''TYPE_EMAIL''\<rparr>"
  let ?j = "\<lparr>errors = Some [?e]\<rparr>"
  let ?res = "\<lparr>status = 422, json = Fulfilled ?j\<rparr>"
  have nok: "\<not> ok ?res" by (simp add: ok_def)
  from error_notice_joins_messages [OF nok, of ?j "[?e]" init]
  show ?thesis using nok by (simp add: to_string_def)
qed

text \<open>
  Claim C6 as stated fails for two messages: the notice holds the separator, which the
  concatenation of the message fields does not.
\<close>

theorem error_notice_concat_counterexample:
  "\<not> ok \<lparr>status = 422,
       json = Fulfilled \<lparr>errors = Some
         [\<lparr>message = Some ''Invalid email'', field = Some ''email'', code = Some ''TYPE_EMAIL''\<rparr>,
          \<lparr>message = Some ''Message is required'', field = Some ''message'',
            code = Some ''REQUIRED''\<rparr>]\<rparr>\<rparr> \<and>
   toast (handleContactSubmit_settled
     (Fulfilled \<lparr>status = 422,
       json = Fulfilled \<lparr>errors = Some
         [\<lparr>message = Some ''Invalid email'', field = Some ''email'', code = Some ''TYPE_EMAIL''\<rparr>,
          \<lparr>message = Some ''Message is required'', field = Some ''message'',
            code = Some ''REQUIRED''\<rparr>]\<rparr>\<rparr>) init) =
     Some \<lparr>kind = error, toast_text = ''Invalid email, Message is required''\<rparr> \<and>
   concat_messages
     [\<lparr>message = Some ''Invalid email'', field = Some ''email'', code = Some ''TYPE_EMAIL''\<rparr>,
      \<lparr>message = Some ''Message is required'', field = Some ''message'', code = Some ''REQUIRED''\<rparr>]
     = ''Invalid emailMessage is required'' \<and>
   ''Invalid email, Message is required'' \<noteq> ''Invalid emailMessage is required''"
  by (simp add: ok_def settled_toast json_or_empty_def error_msg_def Boolean_def to_string_def
      concat_messages_def)

lemma outcome_unique:
  "length (filter id
     [is_success r, is_structured_failure r, is_unstructured_failure r,
      is_transport_failure r]) = 1"
  by (cases r)
    (auto simp: is_success_def is_structured_failure_def is_unstructured_failure_def
      is_transport_failure_def)

text \<open>
  Claim C7, as the handler computes it. Every submission ends in exactly one of four
  outcomes: success; structured remote failure (the response is not ok and its body has
  an \<open>errors\<close> array: the notice is the joined messages); unstructured remote failure
  (the response is not ok and its body has no \<open>errors\<close> field or cannot be parsed: the
  notice is the fallback text); transport failure (the fetch was rejected: the notice is
  \<^verbatim>\<open>Network error. Please try again.\<close>). In each the handler shows exactly one notice,
  registers exactly one timeout of 4000 milliseconds whose callback clears the toast,
  issues no request, and clears \<open>sending\<close>; the callback issues no request either. In
  every reachable state the next timeout to fire clears the notice.
\<close>

theorem outcomes_one_notice:
  "length (filter id
     [is_success r, is_structured_failure r, is_unstructured_failure r,
      is_transport_failure r]) = 1 \<and>
   (is_success r \<longrightarrow> toast (handleContactSubmit_settled r st) = Some success_toast) \<and>
   (is_structured_failure r \<longrightarrow>
      (\<exists>res j es. r = Fulfilled res \<and> json res = Fulfilled j \<and> errors j = Some es \<and>
         toast (handleContactSubmit_settled r st) =
           Some \<lparr>kind = error,
                 toast_text =
                   join '', '' (filter (\<lambda>m. m \<noteq> []) (map (\<lambda>x. to_string (message x)) es))\<rparr>)) \<and>
   (is_unstructured_failure r \<longrightarrow>
      toast (handleContactSubmit_settled r st) =
        Some \<lparr>kind = error, toast_text = ''Could not send message. Please try again.''\<rparr>) \<and>
   (is_transport_failure r \<longrightarrow>
      toast (handleContactSubmit_settled r st) =
        Some \<lparr>kind = error, toast_text = ''Network error. Please try again.''\<rparr>) \<and>
   length (notices_of (settle_effects r)) = 1 \<and>
   timeouts_of (settle_effects r) = [(4000, [SetToast None])] \<and>
   requests_of (settle_effects r) = [] \<and>
   timers (handleContactSubmit_settled r st) = timers st @ [(4000, [SetToast None])] \<and>
   pending (handleContactSubmit_settled r st) = tl (pending st) \<and>
   \<not> sending (handleContactSubmit_settled r st) \<and>
   toast (run [SetToast None] s) = None \<and>
   requests_of [SetToast None] = [] \<and>
   (reachable st \<longrightarrow>
      step Timeout (handleContactSubmit_settled r st) =
        Some ((handleContactSubmit_settled r st)
          \<lparr>timers := tl (timers (handleContactSubmit_settled r st)), toast := None\<rparr>))"
proof -
  let ?s = "handleContactSubmit_settled r st"
  have o1: "toast ?s = Some success_toast" if "is_success r"
    using that by (cases r) (simp_all add: is_success_def settled_toast)
  have o2: "\<exists>res j es. r = Fulfilled res \<and> json res = Fulfilled j \<and> errors j = Some es \<and>
         toast ?s = Some \<lparr>kind = error,
                 toast_text =
                   join '', '' (filter (\<lambda>m. m \<noteq> []) (map (\<lambda>x. to_string (message x)) es))\<rparr>"
    if "is_structured_failure r"
  proof -
    from that obtain res es where r: "r = Fulfilled res" and nok: "\<not> ok res"
      and es: "errors (json_or_empty res) = Some es"
      by (cases r) (auto simp: is_structured_failure_def)
    from es obtain j where j: "json res = Fulfilled j" "errors j = Some es"
      by (cases "json res") (simp_all add: json_or_empty_def)
    have "toast ?s = Some \<lparr>kind = error, toast_text = error_msg (json_or_empty res)\<rparr>"
      unfolding r using nok by (rule settled_remote_failure)
    then show ?thesis
      using r j es by (simp add: error_msg_errors)
  qed
  have o3: "toast ?s = Some \<lparr>kind = error, toast_text = ''Could not send message. Please try again.''\<rparr>"
    if "is_unstructured_failure r"
  proof -
    from that obtain res where r: "r = Fulfilled res" and nok: "\<not> ok res"
      and es: "errors (json_or_empty res) = None"
      by (cases r) (auto simp: is_unstructured_failure_def)
    have "toast ?s = Some \<lparr>kind = error, toast_text = error_msg (json_or_empty res)\<rparr>"
      unfolding r using nok by (rule settled_remote_failure)
    then show ?thesis
      using es by (simp add: error_msg_absent fallback_msg_def)
  qed
  have o4: "toast ?s = Some \<lparr>kind = error, toast_text = ''Network error. Please try again.''\<rparr>"
    if "is_transport_failure r"
    using that by (cases r) (simp_all add: is_transport_failure_def settled_toast network_error_toast_def)
  have n: "length (notices_of (settle_effects r)) = 1"
    by (cases r) (simp_all add: notices_of_def settle_effects_def)
  have t: "timeouts_of (settle_effects r) = [(4000, [SetToast None])]"
    by (cases r) (simp_all add: timeouts_of_def settle_effects_def)
  have q: "requests_of (settle_effects r) = []" "requests_of [SetToast None] = []"
    by (cases r) (simp_all add: requests_of_def settle_effects_def)
  have c: "toast (run [SetToast None] s) = None"
    by simp
  have d: "step Timeout ?s = Some (?s\<lparr>timers := tl (timers ?s), toast := None\<rparr>)"
    if "reachable st"
    using that by (rule settled_next_timeout)
  show ?thesis
    using outcome_unique [of r] o1 o2 o3 o4 n t q c d settled_fields [of r st]
    by blast
qed

theorem outcomes_one_notice_witness:
  "is_transport_failure Rejected \<and>
   map_option toast (run_events [Input \<lparr>input_gotcha = [], input_name = ''Ada'', input_email = ''ada@example.org'',
       input_message = ''Hello''\<rparr>, Submit, Render, Settle Rejected] init) =
     Some (Some \<lparr>kind = error, toast_text = ''Network error. Please try again.''\<rparr>) \<and>
   is_unstructured_failure (Fulfilled \<lparr>status = 500, json = Rejected\<rparr>) \<and>
   map_option toast (run_events [Input \<lparr>input_gotcha = [], input_name = ''Ada'', input_email = ''ada@example.org'',
       input_message = ''Hello''\<rparr>, Submit, Render, Settle (Fulfilled \<lparr>status = 500, json = Rejected\<rparr>)] init) =
     Some (Some \<lparr>kind = error, toast_text = ''Could not send message. Please try again.''\<rparr>) \<and>
   is_success (Fulfilled \<lparr>status = 200, json = Fulfilled \<lparr>errors = None\<rparr>\<rparr>) \<and>
   map_option toast (run_events [Input \<lparr>input_gotcha = [], input_name = ''Ada'', input_email = ''ada@example.org'',
       input_message = ''Hello''\<rparr>, Submit, Render, Settle (Fulfilled \<lparr>status = 200, json = Fulfilled \<lparr>errors = None\<rparr>\<rparr>)] init) =
     Some (Some success_toast) \<and>
   is_structured_failure (Fulfilled \<lparr>status = 422, json = Fulfilled \<lparr>errors = Some [\<lparr>message = Some ''Invalid email'',
       field = Some ''email'', code = Some ''TYPE_EMAIL''\<rparr>]\<rparr>\<rparr>)"
proof -
  let ?s1 = "init\<lparr>form := \<lparr>input_gotcha = [], input_name = ''Ada'', input_email = ''ada@example.org'',
       input_message = ''Hello''\<rparr>,
    sending := True, pending := [contact_request \<lparr>input_gotcha = [], input_name = ''Ada'', input_email = ''ada@example.org'',
       input_message = ''Hello''\<rparr>],
    closure_sending := True\<rparr>"
  have r1: "run_events [Input \<lparr>input_gotcha = [], input_name = ''Ada'', input_email = ''ada@example.org'',
       input_message = ''Hello''\<rparr>, Submit, Render] init = Some ?s1"
    by (simp add: handleContactSubmit_def submit_effects_def init_def)
  have p: "pending ?s1 \<noteq> []" by simp
  have ev: "run_events [Input \<lparr>input_gotcha = [], input_name = ''Ada'', input_email = ''ada@example.org'',
       input_message = ''Hello''\<rparr>, Submit, Render, Settle r] init =
      Some (handleContactSubmit_settled r ?s1)" for r
    using r1 p by (simp split: option.splits)
  have k1: "is_transport_failure Rejected"
    by (simp add: is_transport_failure_def)
  have k2: "is_unstructured_failure (Fulfilled \<lparr>status = 500, json = Rejected\<rparr>)"
    by (simp add: is_unstructured_failure_def ok_def json_or_empty_def)
  have k3: "is_success (Fulfilled \<lparr>status = 200, json = Fulfilled \<lparr>errors = None\<rparr>\<rparr>)"
    by (simp add: is_success_def ok_def)
  have k4: "is_structured_failure (Fulfilled \<lparr>status = 422, json = Fulfilled \<lparr>errors = Some [\<lparr>message = Some ''Invalid email'',
       field = Some ''email'', code = Some ''TYPE_EMAIL''\<rparr>]\<rparr>\<rparr>)"
    by (simp add: is_structured_failure_def ok_def json_or_empty_def)
  from outcomes_one_notice [of Rejected ?s1 init] k1
  have a: "toast (handleContactSubmit_settled Rejected ?s1) =
      Some \<lparr>kind = error, toast_text = ''Network error. Please try again.''\<rparr>"
    by blast
  from outcomes_one_notice [of "Fulfilled \<lparr>status = 500, json = Rejected\<rparr>" ?s1 init] k2
  have b: "toast (handleContactSubmit_settled (Fulfilled \<lparr>status = 500, json = Rejected\<rparr>) ?s1) =
      Some \<lparr>kind = error, toast_text = ''Could not send message. Please try again.''\<rparr>"
    by blast
  from outcomes_one_notice [of "Fulfilled \<lparr>status = 200, json = Fulfilled \<lparr>errors = None\<rparr>\<rparr>" ?s1 init] k3
  have c: "toast (handleContactSubmit_settled (Fulfilled \<lparr>status = 200, json = Fulfilled \<lparr>errors = None\<rparr>\<rparr>) ?s1) = Some success_toast"
    by blast
  show ?thesis
    unfolding ev using k1 k2 k3 k4 a b c by simp
qed

text \<open>
  Claim C7 as stated fails for a reply that is not ok and carries no \<open>errors\<close> array,
  such as a 500 whose body is not JSON: it is no success, no structured validation
  failure and no rejected fetch, and its notice is the fallback text, not the
  network-error text.
\<close>

theorem unstructured_failure_counterexample:
  "\<not> is_success (Fulfilled \<lparr>status = 500, json = Rejected\<rparr>) \<and>
   \<not> is_structured_failure (Fulfilled \<lparr>status = 500, json = Rejected\<rparr>) \<and>
   \<not> is_transport_failure (Fulfilled \<lparr>status = 500, json = Rejected\<rparr>) \<and>
   map_option toast (run_events [Input \<lparr>input_gotcha = [], input_name = ''Ada'', input_email = ''ada@example.org'',
       input_message = ''Hello''\<rparr>, Submit, Render, Settle (Fulfilled \<lparr>status = 500, json = Rejected\<rparr>)] init) =
     Some (Some \<lparr>kind = error, toast_text = ''Could not send message. Please try again.''\<rparr>) \<and>
   ''Could not send message. Please try again.'' \<noteq> toast_text network_error_toast"
  by (simp add: is_success_def is_structured_failure_def is_transport_failure_def
      json_or_empty_def error_msg_def fallback_msg_def network_error_toast_def handleContactSubmit_def submit_effects_def handleContactSubmit_settled_def settle_effects_def init_def ok_def)

text \<open>
  Claim C10. For a response that is not ok: when the body has an \<open>errors\<close> field in which
  every entry's message is missing or empty (an empty array among them), the error
  notice is the empty string, the entries without a message being dropped before the
  join; the fallback text is the notice when the body cannot be parsed or has no
  \<open>errors\<close> field; and with an \<open>errors\<close> field present the notice is the joined non-empty
  messages, never the fallback branch.
\<close>

theorem empty_errors_give_empty_notice:
  "\<not> ok res \<Longrightarrow>
     (\<forall>j es. json res = Fulfilled j \<and> errors j = Some es \<and>
        list_all (\<lambda>e. message e = None \<or> message e = Some []) es \<longrightarrow>
        toast (handleContactSubmit_settled (Fulfilled res) st) =
          Some \<lparr>kind = error, toast_text = []\<rparr>) \<and>
     (json res = Rejected \<or> (\<exists>j. json res = Fulfilled j \<and> errors j = None) \<longrightarrow>
        toast (handleContactSubmit_settled (Fulfilled res) st) =
          Some \<lparr>kind = error, toast_text = ''Could not send message. Please try again.''\<rparr>) \<and>
     (\<forall>j es. json res = Fulfilled j \<and> errors j = Some es \<longrightarrow>
        toast (handleContactSubmit_settled (Fulfilled res) st) =
          Some \<lparr>kind = error,
                toast_text =
                  join '', '' (filter (\<lambda>m. m \<noteq> []) (map (\<lambda>x. to_string (message x)) es))\<rparr>)"
proof -
  assume nok: "\<not> ok res"
  let ?s = "handleContactSubmit_settled (Fulfilled res) st"
  have t: "toast ?s = Some \<lparr>kind = error, toast_text = error_msg (json_or_empty res)\<rparr>"
    using nok by (rule settled_remote_failure)
  have a: "error_msg (json_or_empty res) =
      join '', '' (filter (\<lambda>m. m \<noteq> []) (map (\<lambda>x. to_string (message x)) es))"
    if "json res = Fulfilled j" "errors j = Some es" for j es
    using that by (simp add: json_or_empty_def error_msg_errors)
  have b: "error_msg (json_or_empty res) = ''Could not send message. Please try again.''"
    if "json res = Rejected \<or> (\<exists>j. json res = Fulfilled j \<and> errors j = None)"
    using that by (auto simp: json_or_empty_def error_msg_absent fallback_msg_def)
  have c: "error_msg (json_or_empty res) = []"
    if j: "json res = Fulfilled j" "errors j = Some es"
      and e: "list_all (\<lambda>e. message e = None \<or> message e = Some []) es" for j es
  proof -
    from e have "filter (\<lambda>m. m \<noteq> []) (map (\<lambda>x. to_string (message x)) es) = []"
      by (induction es) (auto simp: to_string_def)
    with a [OF j] show ?thesis by simp
  qed
  show ?thesis
    unfolding t using a b c by blast
qed

theorem empty_errors_give_empty_notice_witness:
  "\<not> ok \<lparr>status = 422, json = Fulfilled \<lparr>errors = Some [\<lparr>message = None, field = Some ''email'', code = Some ''REQUIRED''\<rparr>,
        \<lparr>message = Some [], field = Some ''name'', code = None\<rparr>]\<rparr>\<rparr> \<and>
   toast (handleContactSubmit_settled
     (Fulfilled \<lparr>status = 422, json = Fulfilled \<lparr>errors = Some [\<lparr>message = None, field = Some ''email'', code = Some ''REQUIRED''\<rparr>,
        \<lparr>message = Some [], field = Some ''name'', code = None\<rparr>]\<rparr>\<rparr>) init) =
     Some \<lparr>kind = error, toast_text = []\<rparr> \<and>
   toast (handleContactSubmit_settled
     (Fulfilled \<lparr>status = 422, json = Fulfilled \<lparr>errors = Some []\<rparr>\<rparr>) init) =
     Some \<lparr>kind = error, toast_text = []\<rparr> \<and>
   toast (handleContactSubmit_settled (Fulfilled \<lparr>status = 500, json = Rejected\<rparr>) init) =
     Some \<lparr>kind = error, toast_text = ''Could not send message. Please try again.''\<rparr> \<and>
   toast (handleContactSubmit_settled
     (Fulfilled \<lparr>status = 400, json = Fulfilled \<lparr>errors = None\<rparr>\<rparr>) init) =
     Some \<lparr>kind = error, toast_text = ''Could not send message. Please try again.''\<rparr>"
proof -
  let ?es = "[\<lparr>message = None, field = Some ''email'', code = Some ''REQUIRED''\<rparr>,
        \<lparr>message = Some [], field = Some ''name'', code = None\<rparr>]"
  let ?r0 = "\<lparr>status = 422, json = Fulfilled \<lparr>errors = Some ?es\<rparr>\<rparr>"
  let ?r1 = "\<lparr>status = 422, json = Fulfilled \<lparr>errors = Some []\<rparr>\<rparr>"
  let ?r2 = "\<lparr>status = 500, json = Rejected\<rparr>"
  let ?r3 = "\<lparr>status = 400, json = Fulfilled \<lparr>errors = None\<rparr>\<rparr>"
  have n0: "\<not> ok ?r0" and n1: "\<not> ok ?r1" and n2: "\<not> ok ?r2" and n3: "\<not> ok ?r3"
    by (simp_all add: ok_def)
  have e0: "list_all (\<lambda>e. message e = None \<or> message e = Some []) ?es"
    by simp
  from empty_errors_give_empty_notice [OF n0, of init] e0
  have a: "toast (handleContactSubmit_settled (Fulfilled ?r0) init) =
     Some \<lparr>kind = error, toast_text = []\<rparr>"
    by simp
  from empty_errors_give_empty_notice [OF n1, of init]
  have b: "toast (handleContactSubmit_settled (Fulfilled ?r1) init) =
     Some \<lparr>kind = error, toast_text = []\<rparr>"
    by simp
  from empty_errors_give_empty_notice [OF n2, of init]
  have c: "toast (handleContactSubmit_settled (Fulfilled ?r2) init) =
     Some \<lparr>kind = error, toast_text = ''Could not send message. Please try again.''\<rparr>"
    by simp
  from empty_errors_give_empty_notice [OF n3, of init]
  have d: "toast (handleContactSubmit_settled (Fulfilled ?r3) init) =
     Some \<lparr>kind = error, toast_text = ''Could not send message. Please try again.''\<rparr>"
    by simp
  from n0 a b c d show ?thesis by simp
qed

section \<open>The tabs and the base path: proofs\<close>

lemma PROJECTS_disjoint: "set (PROJECTS research) \<inter> set (PROJECTS applied) = {}"
  by simp

text \<open>
  Claim C8. Selecting the tab of key \<open>k\<close> makes the displayed list exactly
  \<open>PROJECTS k\<close>; the state is always one of the two keys \<open>research\<close> and \<open>applied\<close>, it
  starts at \<open>research\<close>, and the two lists share no item. Selection is a function of the
  key alone.
\<close>

theorem tab_selects_its_projects:
  "displayed (setTab k t) = PROJECTS k \<and>
   (setTab k t = research \<or> setTab k t = applied) \<and>
   (t = research \<or> t = applied) \<and>
   init_tab = research \<and>
   map fst tabs = [research, applied] \<and>
   set (PROJECTS research) \<inter> set (PROJECTS applied) = {}"
proof -
  have "k = research \<or> k = applied" by (cases k) simp_all
  moreover have "t = research \<or> t = applied" by (cases t) simp_all
  ultimately show ?thesis
    using PROJECTS_disjoint by (simp add: displayed_def setTab_def init_tab_def tabs_def)
qed

theorem tab_selects_its_projects_witness:
  "map link (displayed (setTab applied research)) =
     [''https://github.com/uddipan77/OCR-to-Machine-Translation'',
      ''https://github.com/uddipan77/generate_email_with_llm'',
      ''https://github.com/uddipan77/local_rag_talk_with_your_docs/tree/main'',
      ''https://github.com/uddipan77/fullstack_customer_churn''] \<and>
   map link (displayed (setTab research applied)) =
     [''https://github.com/uddipan77/AI-FAPS-Multi-Modal-View-Task-Pipeline'',
      ''https://github.com/uddipan77/ai-faps-self-semi-combined-dl-pipeline-industrial-inspection'']"
  using tab_selects_its_projects [of applied research] tab_selects_its_projects [of research applied]
  by simp

lemma BASE_mjs_agree: "basePath (next_config_mjs env) = BASE env"
  by (simp add: next_config_mjs_def BASE_def isProd_def repo_def)

lemma nextConfig_ts_basePath: "basePath (nextConfig env) = ''/portfolio_Uddipan''"
  by (simp add: nextConfig_def)

text \<open>
  Claim C9. The in-page prefix \<open>BASE\<close> and the base path of the build configuration in
  force, \<^verbatim>\<open>next.config.mjs\<close>, are \<^verbatim>\<open>/portfolio_Uddipan\<close> when \<^verbatim>\<open>NODE_ENV\<close> is
  \<^verbatim>\<open>production\<close> and empty otherwise; they agree for every environment, depend on
  nothing but that flag, and every in-page asset link is the prefix followed by the
  asset's path.
\<close>

theorem base_path_follows_production_flag:
  "BASE env = (if env = Some ''production'' then ''/portfolio_Uddipan'' else []) \<and>
   basePath (next_config_mjs env) =
     (if env = Some ''production'' then ''/portfolio_Uddipan'' else []) \<and>
   asset_href env path = BASE env @ path \<and>
   (isProd env = isProd env' \<longrightarrow>
      BASE env = BASE env' \<and> basePath (next_config_mjs env) = basePath (next_config_mjs env'))"
  by (simp add: BASE_def next_config_mjs_def isProd_def repo_def asset_href_def)

theorem base_path_follows_production_flag_witness:
  "BASE (Some ''production'') = ''/portfolio_Uddipan'' \<and>
   basePath (next_config_mjs (Some ''production'')) = ''/portfolio_Uddipan'' \<and>
   asset_href (Some ''production'') ''/images/profile.png'' =
     ''/portfolio_Uddipan/images/profile.png'' \<and>
   BASE (Some ''development'') = [] \<and>
   basePath (next_config_mjs (Some ''development'')) = [] \<and>
   isProd (Some ''development'') = isProd None \<and>
   BASE None = BASE (Some ''development'')"
proof -
  have p: "isProd (Some ''development'') = isProd None"
    by (simp add: isProd_def)
  from base_path_follows_production_flag [of "Some ''production''" "''/images/profile.png''" None]
  have a: "BASE (Some ''production'') = ''/portfolio_Uddipan''"
    "basePath (next_config_mjs (Some ''production'')) = ''/portfolio_Uddipan''"
    "asset_href (Some ''production'') ''/images/profile.png'' =
       ''/portfolio_Uddipan/images/profile.png''"
    by simp_all
  from base_path_follows_production_flag [of "Some ''development''" "[]" None] p
  have b: "BASE (Some ''development'') = []"
    "basePath (next_config_mjs (Some ''development'')) = []"
    "BASE None = BASE (Some ''development'')"
    by (simp_all del: not_None_eq) metis
  from p a b show ?thesis by simp
qed

end
